theory Spec2Isabelle
  imports Complex_Main "HOL-Library.AList" "HOL-Library.Sublist" "HOL-Library.Log_Nat"
    "HOL-Library.Word"
begin

section \<open>JavaScript values\<close>

text \<open>
  The client (src/utils/freeloApi.ts) returns whatever \<^verbatim>\<open>response.json()\<close> produced, cast to
  the declared interface without any check. The model therefore works on untyped values:
  the results of parsing JSON, plus \<^verbatim>\<open>undefined\<close> for a property that is absent.
  Objects are association lists in insertion order with distinct keys. Numbers are the
  integers of magnitude below \<open>10 ^ 21\<close> (identifiers, counters, HTTP status codes), which
  JavaScript prints as plain decimal digits; strings are byte strings (UTF-8).
\<close>

datatype js_value =
    JUndefined
  | JNull
  | JBool bool
  | JNum int
  | JStr string
  | JArr "js_value list"
  | JObj "(string \<times> js_value) list"

text \<open>
  A thrown value: an instance of \<^verbatim>\<open>Error\<close> (or of a subclass such as \<^verbatim>\<open>TypeError\<close>) with its
  \<^verbatim>\<open>name\<close> and \<^verbatim>\<open>message\<close>, or any other value. \<^verbatim>\<open>error instanceof Error\<close> holds for the
  first form only.
\<close>

datatype thrown =
    ErrorObj string string
  | NonError js_value

fun instanceof_Error :: "thrown \<Rightarrow> bool" where
  "instanceof_Error (ErrorObj n m) = True"
| "instanceof_Error (NonError v) = False"

fun message :: "thrown \<Rightarrow> string" where
  "message (ErrorObj n m) = m"
| "message (NonError v) = []"

text \<open>\<^verbatim>\<open>new Error(msg)\<close> for a string \<^verbatim>\<open>msg\<close>.\<close>

definition new_Error :: "string \<Rightarrow> thrown" where
  "new_Error msg = ErrorObj ''Error'' msg"

text \<open>Truthiness, as used by \<^verbatim>\<open>!x\<close>, \<^verbatim>\<open>x || y\<close> and \<^verbatim>\<open>x ? a : b\<close>.\<close>

fun truthy :: "js_value \<Rightarrow> bool" where
  "truthy JUndefined = False"
| "truthy JNull = False"
| "truthy (JBool b) = b"
| "truthy (JNum n) = (n \<noteq> 0)"
| "truthy (JStr s) = (s \<noteq> [])"
| "truthy (JArr xs) = True"
| "truthy (JObj kvs) = True"

definition js_or :: "js_value \<Rightarrow> js_value \<Rightarrow> js_value" where
  "js_or a b = (if truthy a then a else b)"

subsection \<open>Numbers and values as strings\<close>

definition digit_char :: "nat \<Rightarrow> char" where
  "digit_char d = ''0123456789'' ! (d mod 10)"

fun digits :: "nat \<Rightarrow> string" where
  "digits n = (if n < 10 then [digit_char n] else digits (n div 10) @ [digit_char (n mod 10)])"

declare digits.simps [simp del]

text \<open>
  A number inside a template literal, \<^verbatim>\<open>`${n}`\<close>, for an integer \<^verbatim>\<open>n\<close> of magnitude below
  \<open>10 ^ 21\<close>; from there on JavaScript prints an exponent, which is not modelled.
\<close>

definition number_to_string :: "int \<Rightarrow> string" where
  "number_to_string i = (if i < 0 then CHR ''-'' # digits (nat (- i)) else digits (nat i))"

fun join_with :: "string \<Rightarrow> string list \<Rightarrow> string" where
  "join_with sep [] = []"
| "join_with sep [s] = s"
| "join_with sep (s # t # ss) = s @ sep @ join_with sep (t # ss)"

text \<open>
  \<^verbatim>\<open>String(v)\<close>, which \<^verbatim>\<open>new Error(v)\<close> applies to its argument. An array is its elements
  joined by commas, with \<^verbatim>\<open>null\<close> and \<^verbatim>\<open>undefined\<close> elements left empty. A plain object is
  \<^verbatim>\<open>[object Object]\<close>, unless it has a property \<^verbatim>\<open>toString\<close> of its own: a value parsed from
  JSON is never callable, so the conversion throws a \<^verbatim>\<open>TypeError\<close> then.
\<close>

fun to_string :: "js_value \<Rightarrow> thrown + string"
  and elements_to_strings :: "js_value list \<Rightarrow> thrown + string list" where
  "to_string JUndefined = Inr ''undefined''"
| "to_string JNull = Inr ''null''"
| "to_string (JBool b) = Inr (if b then ''true'' else ''false'')"
| "to_string (JNum n) = Inr (number_to_string n)"
| "to_string (JStr s) = Inr s"
| "to_string (JArr xs) =
     (case elements_to_strings xs of Inl e \<Rightarrow> Inl e | Inr ss \<Rightarrow> Inr (join_with '','' ss))"
| "to_string (JObj kvs) =
     (if map_of kvs ''toString'' = None then Inr ''[object Object]''
      else Inl (ErrorObj ''TypeError'' ''Cannot convert object to primitive value''))"
| "elements_to_strings [] = Inr []"
| "elements_to_strings (x # xs) =
     (case (if x = JUndefined \<or> x = JNull then Inr [] else to_string x) of
        Inl e \<Rightarrow> Inl e
      | Inr s \<Rightarrow> (case elements_to_strings xs of Inl e \<Rightarrow> Inl e | Inr ss \<Rightarrow> Inr (s # ss)))"

text \<open>\<^verbatim>\<open>new Error(v)\<close> for any value \<^verbatim>\<open>v\<close>: the conversion of \<^verbatim>\<open>v\<close> to a string may throw.\<close>

definition new_Error_of :: "js_value \<Rightarrow> thrown" where
  "new_Error_of v = (case to_string v of Inl e \<Rightarrow> e | Inr msg \<Rightarrow> new_Error msg)"

subsection \<open>Property access\<close>

text \<open>
  \<^verbatim>\<open>v.k\<close>: reading a property of \<^verbatim>\<open>undefined\<close> or \<^verbatim>\<open>null\<close> throws a \<^verbatim>\<open>TypeError\<close> (the message is
  the one of V8, the engine of Node.js); an object yields the value stored under the key,
  or \<^verbatim>\<open>undefined\<close>. Inherited properties (\<^verbatim>\<open>length\<close>, \<^verbatim>\<open>constructor\<close>, ...) are not modelled: no
  key read by the code is one of them, so every other value yields \<^verbatim>\<open>undefined\<close>.
\<close>

fun get_prop :: "js_value \<Rightarrow> string \<Rightarrow> thrown + js_value" where
  "get_prop JUndefined k =
     Inl (ErrorObj ''TypeError''
       (''Cannot read properties of undefined (reading '' @ [CHR 0x27] @ k @ [CHR 0x27] @ '')''))"
| "get_prop JNull k =
     Inl (ErrorObj ''TypeError''
       (''Cannot read properties of null (reading '' @ [CHR 0x27] @ k @ [CHR 0x27] @ '')''))"
| "get_prop (JObj kvs) k = Inr (case map_of kvs k of None \<Rightarrow> JUndefined | Some v \<Rightarrow> v)"
| "get_prop v k = Inr JUndefined"

text \<open>Sequencing of a property read with the rest of an expression that may throw.\<close>

definition read_prop :: "js_value \<Rightarrow> string \<Rightarrow> (js_value \<Rightarrow> thrown + 'a) \<Rightarrow> thrown + 'a" where
  "read_prop v k f = (case get_prop v k of Inl e \<Rightarrow> Inl e | Inr x \<Rightarrow> f x)"

text \<open>
  Object spread \<^verbatim>\<open>{...base, ...extra}\<close>: every property of \<^verbatim>\<open>extra\<close> is written onto the
  object built so far, replacing the value of a key that is already there and appending a
  new key. Spreading \<^verbatim>\<open>undefined\<close> adds nothing.
\<close>

definition object_spread ::
  "(string \<times> 'v) list \<Rightarrow> (string \<times> 'v) list option \<Rightarrow> (string \<times> 'v) list" where
  "object_spread base extra =
     (case extra of
        None \<Rightarrow> base
      | Some kvs \<Rightarrow> fold (\<lambda>kv acc. AList.update (fst kv) (snd kv) acc) kvs base)"

section \<open>Platform: base64 and fetch\<close>

definition b64_chars :: string where
  "b64_chars = ''ABCDEFGHIJKLMNOPQRSTUVWXYZabcdefghijklmnopqrstuvwxyz0123456789+/''"

definition b64_char :: "nat \<Rightarrow> char" where
  "b64_char n = b64_chars ! (n mod 64)"

fun base64_bytes :: "nat list \<Rightarrow> string" where
  "base64_bytes [] = []"
| "base64_bytes [a] = [b64_char (a div 4), b64_char ((a mod 4) * 16), CHR ''='', CHR ''='']"
| "base64_bytes [a, b] =
     [b64_char (a div 4), b64_char ((a mod 4) * 16 + b div 16), b64_char ((b mod 16) * 4),
      CHR ''='']"
| "base64_bytes (a # b # c # rest) =
     [b64_char (a div 4), b64_char ((a mod 4) * 16 + b div 16),
      b64_char ((b mod 16) * 4 + c div 64), b64_char (c mod 64)] @ base64_bytes rest"

text \<open>\<^verbatim>\<open>Buffer.from(s).toString('base64')\<close> on the bytes of \<^verbatim>\<open>s\<close>.\<close>

definition base64 :: "string \<Rightarrow> string" where
  "base64 s = base64_bytes (map of_char s)"

type_synonym byte = "8 word"

text \<open>
  A \<^verbatim>\<open>Response\<close>: the status line and what its two body readers settle with.
  \<^verbatim>\<open>response.json()\<close> resolves with the parsed value or rejects (a \<^verbatim>\<open>SyntaxError\<close> when the
  body is not JSON); \<^verbatim>\<open>response.arrayBuffer()\<close> resolves with the bytes of the body.
\<close>

record response =
  status :: nat
  statusText :: string
  json :: "thrown + js_value"
  arrayBuffer :: "thrown + byte list"

text \<open>\<^verbatim>\<open>response.ok\<close>: the status is in the range 200-299.\<close>

definition ok :: "response \<Rightarrow> bool" where
  "ok r \<longleftrightarrow> 200 \<le> status r \<and> status r \<le> 299"

text \<open>
  \<^verbatim>\<open>RequestInit\<close>, as far as the client can set it. The \<^verbatim>\<open>headers\<close> are a plain object from
  header name to value (property names are case-sensitive). An absent \<^verbatim>\<open>method\<close> means GET.
\<close>

record request_init =
  http_method :: "string option"
  body :: "string option"
  headers :: "(string \<times> string) list option"

definition effective_method :: "request_init \<Rightarrow> string" where
  "effective_method i = (case http_method i of None \<Rightarrow> ''GET'' | Some m \<Rightarrow> m)"

record fetch_call =
  url :: string
  init :: request_init

text \<open>
  The transport: \<^verbatim>\<open>fetch(url, init)\<close> rejects with a thrown value (a network-level fault) or
  resolves with a response. Every operation returns its result together with the list of
  the \<^verbatim>\<open>fetch\<close> calls it made, in order.
\<close>

type_synonym fetch = "fetch_call \<Rightarrow> thrown + response"

section \<open>The client: src/utils/freeloApi.ts\<close>

record FreeloApiClient =
  email :: string
  apiKey :: string
  baseUrl :: string

text \<open>The constructor; \<^verbatim>\<open>!s\<close> on a string holds exactly for the empty string.\<close>

definition new_FreeloApiClient :: "string \<Rightarrow> string \<Rightarrow> thrown + FreeloApiClient" where
  "new_FreeloApiClient email_arg apiKey_arg =
     (if email_arg = [] then
        Inl (new_Error ''Freelo email is required. Set FREELO_EMAIL environment variable.'')
      else if apiKey_arg = [] then
        Inl (new_Error ''Freelo API key is required. Set FREELO_API_KEY environment variable.'')
      else Inr \<lparr>email = email_arg, apiKey = apiKey_arg, baseUrl = ''https://api.freelo.io/v1''\<rparr>)"

text \<open>\<^verbatim>\<open>options = {}\<close>, the default of the second parameter of \<^verbatim>\<open>request\<close>.\<close>

definition no_options :: request_init where
  "no_options = \<lparr>http_method = None, body = None, headers = None\<rparr>"

definition credentials :: "FreeloApiClient \<Rightarrow> string" where
  "credentials c = base64 (email c @ '':'' @ apiKey c)"

definition request_headers :: "FreeloApiClient \<Rightarrow> request_init \<Rightarrow> (string \<times> string) list" where
  "request_headers c options =
     object_spread
       [(''Authorization'', ''Basic '' @ credentials c),
        (''User-Agent'', ''freelo-mcp ('' @ email c @ '')''),
        (''Content-Type'', ''application/json'')]
       (headers options)"

text \<open>
  The message thrown for a response that is not ok: the status line, replaced by
  \<^verbatim>\<open>errorData.message || errorData.error || errorMessage\<close> when the body parses and the
  property reads do not throw (the inner \<^verbatim>\<open>try\<close> swallows both failures).
\<close>

definition status_line :: "response \<Rightarrow> string" where
  "status_line r =
     ''API request failed: '' @ number_to_string (int (status r)) @ '' '' @ statusText r"

definition error_message :: "response \<Rightarrow> js_value" where
  "error_message r =
     (case json r of
        Inl e \<Rightarrow> JStr (status_line r)
      | Inr errorData \<Rightarrow>
          (case read_prop errorData ''message'' (\<lambda>m.
                  if truthy m then Inr m
                  else read_prop errorData ''error'' (\<lambda>e. Inr (js_or e (JStr (status_line r))))) of
             Inl e \<Rightarrow> JStr (status_line r)
           | Inr v \<Rightarrow> v))"

text \<open>The \<^verbatim>\<open>catch\<close> block of \<^verbatim>\<open>request\<close>.\<close>

definition wrap_error :: "thrown \<Rightarrow> thrown" where
  "wrap_error e =
     (if instanceof_Error e then new_Error (''Freelo API error: '' @ message e)
      else new_Error ''Unknown Freelo API error'')"

text \<open>The arguments of \<^verbatim>\<open>fetch(url, {...options, headers})\<close> in \<^verbatim>\<open>request\<close>.\<close>

definition request_call :: "FreeloApiClient \<Rightarrow> string \<Rightarrow> request_init \<Rightarrow> fetch_call" where
  "request_call c endpoint options =
     \<lparr>url = baseUrl c @ endpoint,
      init = options\<lparr>headers := Some (request_headers c options)\<rparr>\<rparr>"

definition request ::
  "FreeloApiClient \<Rightarrow> fetch \<Rightarrow> string \<Rightarrow> request_init \<Rightarrow> (thrown + js_value) \<times> fetch_call list"
where
  "request c net endpoint options =
     (let call = request_call c endpoint options;
          tried =
            (case net call of
               Inl e \<Rightarrow> Inl e
             | Inr r \<Rightarrow>
                 if \<not> ok r then Inl (new_Error_of (error_message r))
                 else json r)
      in (case tried of Inl e \<Rightarrow> Inl (wrap_error e) | Inr data \<Rightarrow> Inr data, [call]))"

definition getTask ::
  "FreeloApiClient \<Rightarrow> fetch \<Rightarrow> int \<Rightarrow> (thrown + js_value) \<times> fetch_call list" where
  "getTask c net taskId = request c net (''/task/'' @ number_to_string taskId) no_options"

definition listTaskSubtasks ::
  "FreeloApiClient \<Rightarrow> fetch \<Rightarrow> int \<Rightarrow> (thrown + js_value) \<times> fetch_call list" where
  "listTaskSubtasks c net taskId =
     (case request c net (''/task/'' @ number_to_string taskId @ ''/subtasks'') no_options of
        (Inl e, calls) \<Rightarrow> (Inl e, calls)
      | (Inr r, calls) \<Rightarrow> (read_prop r ''data'' (\<lambda>d. get_prop d ''subtasks''), calls))"

text \<open>The arguments of \<^verbatim>\<open>fetch\<close> in \<^verbatim>\<open>downloadFile\<close>.\<close>

definition download_call :: "FreeloApiClient \<Rightarrow> string \<Rightarrow> fetch_call" where
  "download_call c fileUuid =
     \<lparr>url = baseUrl c @ ''/file/'' @ fileUuid,
      init = \<lparr>http_method = None, body = None,
              headers = Some [(''Authorization'', ''Basic '' @ credentials c),
                              (''User-Agent'', ''freelo-mcp ('' @ email c @ '')'')]\<rparr>\<rparr>"

definition downloadFile ::
  "FreeloApiClient \<Rightarrow> fetch \<Rightarrow> string \<Rightarrow> (thrown + byte list) \<times> fetch_call list" where
  "downloadFile c net fileUuid =
     (let call = download_call c fileUuid
      in (case net call of
            Inl e \<Rightarrow> Inl e
          | Inr r \<Rightarrow>
              if \<not> ok r then
                Inl (new_Error (''Failed to download file: '' @ number_to_string (int (status r))
                       @ '' '' @ statusText r))
              else arrayBuffer r,
          [call]))"

definition listTaskAttachments ::
  "FreeloApiClient \<Rightarrow> fetch \<Rightarrow> int \<Rightarrow> (thrown + js_value) \<times> fetch_call list" where
  "listTaskAttachments c net taskId =
     (Inl (new_Error (''API does not support /task/{id}/attachments endpoint. '' @
                      ''Files are included in task comments. Use getTask() instead.'')), [])"

definition getAttachment ::
  "FreeloApiClient \<Rightarrow> fetch \<Rightarrow> int \<Rightarrow> (thrown + js_value) \<times> fetch_call list" where
  "getAttachment c net attachmentId =
     (Inl (new_Error (''API does not support /attachments/{id} endpoint. '' @
                      ''Files use UUIDs. Use downloadFile(uuid) instead.'')), [])"

text \<open>
  \<^verbatim>\<open>createFreeloClient\<close> reads the two variables from the process environment, where a
  variable is a string or absent.
\<close>

definition createFreeloClient :: "(string \<Rightarrow> string option) \<Rightarrow> thrown + FreeloApiClient" where
  "createFreeloClient env =
     (case env ''FREELO_EMAIL'' of
        None \<Rightarrow> Inl (new_Error (''FREELO_EMAIL environment variable is not set. '' @
                                ''Please configure it in your MCP server settings.''))
      | Some email_var \<Rightarrow>
          if email_var = [] then
            Inl (new_Error (''FREELO_EMAIL environment variable is not set. '' @
                            ''Please configure it in your MCP server settings.''))
          else
            (case env ''FREELO_API_KEY'' of
               None \<Rightarrow> Inl (new_Error (''FREELO_API_KEY environment variable is not set. '' @
                                       ''Please configure it in your MCP server settings.''))
             | Some key_var \<Rightarrow>
                 if key_var = [] then
                   Inl (new_Error (''FREELO_API_KEY environment variable is not set. '' @
                                   ''Please configure it in your MCP server settings.''))
                 else new_FreeloApiClient email_var key_var))"

section \<open>Double-precision arithmetic\<close>

text \<open>
  JavaScript numbers are IEEE 754 doubles. The quotient and the product of two doubles are
  the exact results rounded to the nearest double, ties to the even significand. A double
  of the normal range is \<open>m * 2 powi (e - 52)\<close> with \<open>2 ^ 52 \<le> m < 2 ^ 53\<close>; the values
  computed here (ratios of list lengths, times 100) are far from the subnormal and the
  overflow range, so the exponent is left unbounded. Finite doubles are rationals.
\<close>

definition round_even :: "rat \<Rightarrow> int" where
  "round_even z =
     (let f = \<lfloor>z\<rfloor>; r = z - of_int f
      in if r < 1 / 2 then f else if 1 / 2 < r then f + 1 else if even f then f else f + 1)"

text \<open>The binary exponent of a positive rational: \<open>2 powi ilog2 x \<le> x < 2 powi (ilog2 x + 1)\<close>.\<close>

definition ilog2 :: "rat \<Rightarrow> int" where
  "ilog2 x =
     (if 1 \<le> x then int (floorlog 2 (nat \<lfloor>x\<rfloor>)) - 1
      else - int (floorlog 2 (nat \<lceil>1 / x\<rceil> - 1)))"

definition fl :: "rat \<Rightarrow> rat" where
  "fl x =
     (if x = 0 then 0
      else let u = 2 powi (ilog2 \<bar>x\<bar> - 52) in of_int (round_even (x / u)) * u)"

text \<open>\<^verbatim>\<open>a / b\<close> (for \<^verbatim>\<open>b\<close> other than zero) and \<^verbatim>\<open>a * b\<close> on doubles.\<close>

definition js_div :: "rat \<Rightarrow> rat \<Rightarrow> rat" where
  "js_div a b = fl (a / b)"

definition js_mul :: "rat \<Rightarrow> rat \<Rightarrow> rat" where
  "js_mul a b = fl (a * b)"

text \<open>\<^verbatim>\<open>Math.round\<close>: the nearest integer, a tie going towards plus infinity.\<close>

definition Math_round :: "rat \<Rightarrow> int" where
  "Math_round x = \<lfloor>x + 1 / 2\<rfloor>"

section \<open>The tool: src/tools/FreeloListTaskSubtasks.ts\<close>

record FreeloListTaskSubtasksInput =
  taskId :: int

definition and_then :: "thrown + 'a \<Rightarrow> ('a \<Rightarrow> thrown + 'b) \<Rightarrow> thrown + 'b" where
  "and_then r f = (case r of Inl e \<Rightarrow> Inl e | Inr x \<Rightarrow> f x)"

text \<open>\<^verbatim>\<open>v.k1.k2\<close>\<close>

definition get_prop2 :: "js_value \<Rightarrow> string \<Rightarrow> string \<Rightarrow> thrown + js_value" where
  "get_prop2 v k1 k2 = and_then (get_prop v k1) (\<lambda>w. get_prop w k2)"

text \<open>\<^verbatim>\<open>a || null\<close>\<close>

definition or_null :: "js_value \<Rightarrow> js_value" where
  "or_null a = js_or a JNull"

text \<open>
  The callback of \<^verbatim>\<open>subtasks.map\<close>. The properties of the object literal are evaluated in
  the order they are written, and the first read that throws ends the evaluation.
\<close>

definition format_subtask :: "js_value \<Rightarrow> thrown + js_value" where
  "format_subtask subtask =
     and_then (get_prop subtask ''id'') (\<lambda>v_id.
     and_then (get_prop subtask ''name'') (\<lambda>v_name.
     and_then (get_prop2 subtask ''state'' ''state'') (\<lambda>v_state.
     and_then (get_prop subtask ''date_add'') (\<lambda>v_createdAt.
     and_then (get_prop subtask ''due_date'') (\<lambda>v_dueDate.
     and_then (get_prop subtask ''due_date_end'') (\<lambda>v_dueDateEnd.
     and_then (get_prop subtask ''count_comments'') (\<lambda>v_commentsCount.
     and_then (get_prop subtask ''count_subtasks'') (\<lambda>v_subtasksCount.
     and_then (get_prop2 subtask ''author'' ''id'') (\<lambda>v_author_id.
     and_then (get_prop2 subtask ''author'' ''fullname'') (\<lambda>v_author_name.
     and_then (get_prop subtask ''worker'') (\<lambda>v_worker.
     and_then
       (if truthy v_worker then
          and_then (get_prop2 subtask ''worker'' ''id'') (\<lambda>v_worker_id.
          and_then (get_prop2 subtask ''worker'' ''fullname'') (\<lambda>v_worker_name.
          Inr (JObj [(''id'', v_worker_id), (''name'', v_worker_name)])))
        else Inr JNull) (\<lambda>v_assignee.
     and_then (get_prop2 subtask ''project'' ''id'') (\<lambda>v_project_id.
     and_then (get_prop2 subtask ''project'' ''name'') (\<lambda>v_project_name.
     and_then (get_prop2 subtask ''tasklist'' ''id'') (\<lambda>v_tasklist_id.
     and_then (get_prop2 subtask ''tasklist'' ''name'') (\<lambda>v_tasklist_name.
     Inr (JObj
       [(''id'', v_id),
        (''name'', v_name),
        (''state'', v_state),
        (''createdAt'', v_createdAt),
        (''dueDate'', or_null v_dueDate),
        (''dueDateEnd'', or_null v_dueDateEnd),
        (''commentsCount'', v_commentsCount),
        (''subtasksCount'', v_subtasksCount),
        (''author'', JObj [(''id'', v_author_id), (''name'', v_author_name)]),
        (''assignee'', v_assignee),
        (''project'', JObj [(''id'', v_project_id), (''name'', v_project_name)]),
        (''taskList'', JObj [(''id'', v_tasklist_id), (''name'', v_tasklist_name)])])
     ))))))))))))))))"

text \<open>Applying a callback that may throw to the elements of an array, left to right.\<close>

fun map_throw :: "('a \<Rightarrow> thrown + 'b) \<Rightarrow> 'a list \<Rightarrow> thrown + 'b list" where
  "map_throw f [] = Inr []"
| "map_throw f (x # xs) =
     (case f x of
        Inl e \<Rightarrow> Inl e
      | Inr y \<Rightarrow> (case map_throw f xs of Inl e \<Rightarrow> Inl e | Inr ys \<Rightarrow> Inr (y # ys)))"

text \<open>
  \<^verbatim>\<open>subtasks.map(f)\<close> on whatever the client returned: only an array has a \<^verbatim>\<open>map\<close> method
  (no function can come out of JSON).
\<close>

fun subtasks_map :: "(js_value \<Rightarrow> thrown + js_value) \<Rightarrow> js_value \<Rightarrow> thrown + js_value list"
where
  "subtasks_map f (JArr xs) = map_throw f xs"
| "subtasks_map f JUndefined =
     Inl (ErrorObj ''TypeError''
       (''Cannot read properties of undefined (reading '' @ [CHR 0x27] @ ''map'' @ [CHR 0x27]
        @ '')''))"
| "subtasks_map f JNull =
     Inl (ErrorObj ''TypeError''
       (''Cannot read properties of null (reading '' @ [CHR 0x27] @ ''map'' @ [CHR 0x27]
        @ '')''))"
| "subtasks_map f v = Inl (ErrorObj ''TypeError'' ''subtasks.map is not a function'')"

text \<open>\<^verbatim>\<open>st.state === 'completed' || st.state === 'finished'\<close>\<close>

definition is_completed :: "js_value \<Rightarrow> bool" where
  "is_completed st =
     (get_prop st ''state'' = Inr (JStr ''completed'')
      \<or> get_prop st ''state'' = Inr (JStr ''finished''))"

text \<open>
  The same test on a subtask as the remote side delivers it, where the state name is
  \<^verbatim>\<open>subtask.state.state\<close>.
\<close>

definition subtask_done :: "js_value \<Rightarrow> bool" where
  "subtask_done subtask \<longleftrightarrow>
     get_prop2 subtask ''state'' ''state'' = Inr (JStr ''completed'')
     \<or> get_prop2 subtask ''state'' ''state'' = Inr (JStr ''finished'')"

text \<open>
  \<^verbatim>\<open>totalCount > 0 ? Math.round((completedCount / totalCount) * 100) : 0\<close>: the quotient is
  rounded to a double, and so is its product with 100, before \<^verbatim>\<open>Math.round\<close>.
\<close>

definition completionPercentage :: "nat \<Rightarrow> nat \<Rightarrow> int" where
  "completionPercentage completedCount totalCount =
     (if totalCount > 0
      then Math_round (js_mul (js_div (of_nat completedCount) (of_nat totalCount)) 100)
      else 0)"

definition statistics :: "js_value list \<Rightarrow> js_value" where
  "statistics formattedSubtasks =
     (let completedCount = length (filter is_completed formattedSubtasks);
          totalCount = length formattedSubtasks
      in JObj
        [(''total'', JNum (int totalCount)),
         (''completed'', JNum (int completedCount)),
         (''remaining'', JNum (int totalCount - int completedCount)),
         (''completionPercentage'', JNum (completionPercentage completedCount totalCount))])"

definition failure_result :: "thrown \<Rightarrow> js_value" where
  "failure_result e =
     (if instanceof_Error e then
        JObj [(''success'', JBool False), (''error'', JStr (message e))]
      else
        JObj [(''success'', JBool False),
              (''error'', JStr ''Unknown error occurred while fetching task subtasks'')])"

definition execute ::
  "(string \<Rightarrow> string option) \<Rightarrow> fetch \<Rightarrow> FreeloListTaskSubtasksInput \<Rightarrow> js_value \<times> fetch_call list"
where
  "execute env net input =
     (case createFreeloClient env of
        Inl e \<Rightarrow> (failure_result e, [])
      | Inr client \<Rightarrow>
          (case listTaskSubtasks client net (taskId input) of
             (Inl e, calls) \<Rightarrow> (failure_result e, calls)
           | (Inr subtasks, calls) \<Rightarrow>
               (case subtasks_map format_subtask subtasks of
                  Inl e \<Rightarrow> (failure_result e, calls)
                | Inr formattedSubtasks \<Rightarrow>
                    (JObj
                       [(''success'', JBool True),
                        (''taskId'', JNum (taskId input)),
                        (''statistics'', statistics formattedSubtasks),
                        (''subtasks'', JArr formattedSubtasks)],
                     calls))))"

section \<open>Reading a request, and example worlds\<close>

text \<open>The value of a header in the object given to \<^verbatim>\<open>fetch\<close>, and in the caller's options.\<close>

definition header_of :: "fetch_call \<Rightarrow> string \<Rightarrow> string option" where
  "header_of call name = (case headers (init call) of None \<Rightarrow> None | Some hs \<Rightarrow> map_of hs name)"

definition option_header :: "request_init \<Rightarrow> string \<Rightarrow> string option" where
  "option_header options name =
     (case headers options of None \<Rightarrow> None | Some hs \<Rightarrow> map_of hs name)"

text \<open>The caller's \<^verbatim>\<open>headers\<close> are an object: no key occurs twice.\<close>

definition well_formed_options :: "request_init \<Rightarrow> bool" where
  "well_formed_options options =
     (case headers options of None \<Rightarrow> True | Some hs \<Rightarrow> distinct (map fst hs))"

definition has_api_prefix :: "thrown \<Rightarrow> bool" where
  "has_api_prefix e \<longleftrightarrow> instanceof_Error e \<and> prefix ''Freelo API error: '' (message e)"

definition example_client :: FreeloApiClient where
  "example_client =
     \<lparr>email = ''user@example.com'', apiKey = ''s3cret'', baseUrl = ''https://api.freelo.io/v1''\<rparr>"

definition example_env :: "string \<Rightarrow> string option" where
  "example_env = [''FREELO_EMAIL'' \<mapsto> ''user@example.com'', ''FREELO_API_KEY'' \<mapsto> ''s3cret'']"

text \<open>A transport that answers every request with the same response, and one that is down.\<close>

definition respond_with :: "response \<Rightarrow> fetch" where
  "respond_with r call = Inr r"

definition fetch_failed :: fetch where
  "fetch_failed call = Inl (ErrorObj ''TypeError'' ''fetch failed'')"

definition json_response :: "nat \<Rightarrow> string \<Rightarrow> js_value \<Rightarrow> response" where
  "json_response code reason v =
     \<lparr>status = code, statusText = reason, json = Inr v, arrayBuffer = Inr []\<rparr>"

definition html_response :: "nat \<Rightarrow> string \<Rightarrow> response" where
  "html_response code reason =
     \<lparr>status = code, statusText = reason,
      json = Inl (ErrorObj ''SyntaxError'' ''Unexpected token < in JSON at position 0''),
      arrayBuffer = Inr []\<rparr>"

definition bytes_response :: "byte list \<Rightarrow> response" where
  "bytes_response bs =
     \<lparr>status = 200, statusText = ''OK'',
      json = Inl (ErrorObj ''SyntaxError'' ''Unexpected end of JSON input''),
      arrayBuffer = Inr bs\<rparr>"

definition override_options :: request_init where
  "override_options =
     \<lparr>http_method = None, body = None, headers = Some [(''Authorization'', ''Bearer other'')]\<rparr>"

text \<open>A subtask as the interface \<^verbatim>\<open>FreeloSubtask\<close> declares it, in the given state.\<close>

definition example_subtask :: "string \<Rightarrow> js_value" where
  "example_subtask s =
     JObj
       [(''id'', JNum 7), (''task_id'', JNum 1), (''name'', JStr ''Write tests''),
        (''date_add'', JStr ''2024-01-01''), (''count_comments'', JNum 0),
        (''count_subtasks'', JNum 0),
        (''author'', JObj [(''id'', JNum 3), (''fullname'', JStr ''Ada'')]),
        (''state'', JObj [(''id'', JNum 1), (''state'', JStr s)]),
        (''project'', JObj [(''id'', JNum 5), (''name'', JStr ''P'')]),
        (''tasklist'', JObj [(''id'', JNum 6), (''name'', JStr ''L'')])]"

definition envelope :: "js_value list \<Rightarrow> js_value" where
  "envelope xs =
     JObj
       [(''total'', JNum (int (length xs))), (''count'', JNum (int (length xs))),
        (''page'', JNum 1), (''per_page'', JNum 100),
        (''data'', JObj [(''subtasks'', JArr xs)])]"

section \<open>Object spread and the calls made\<close>

lemma map_of_fold_update:
  "map_of (fold (\<lambda>kv acc. AList.update (fst kv) (snd kv) acc) kvs base) k
   = (case map_of (rev kvs) k of None \<Rightarrow> map_of base k | Some v \<Rightarrow> Some v)"
proof (induction kvs arbitrary: base)
  case Nil
  then show ?case by simp
next
  case (Cons kv kvs)
  then show ?case
    by (cases kv) (auto simp: update_conv' map_add_def split: option.splits)
qed

lemma map_of_rev_distinct: "distinct (map fst kvs) \<Longrightarrow> map_of (rev kvs) k = map_of kvs k"
proof -
  assume d: "distinct (map fst kvs)"
  then have "distinct (map fst (rev kvs))" by (simp add: rev_map [symmetric])
  with d have "map_of (rev kvs) = map_of kvs"
    by (simp add: map_of_inject_set)
  then show ?thesis by simp
qed

lemma spread_absent:
  "(case extra of None \<Rightarrow> None | Some hs \<Rightarrow> map_of hs k) = None
   \<Longrightarrow> map_of (object_spread base extra) k = map_of base k"
proof (cases extra)
  case None
  then show ?thesis by (simp add: object_spread_def)
next
  case (Some hs)
  assume "(case extra of None \<Rightarrow> None | Some hs \<Rightarrow> map_of hs k) = None"
  with Some have "k \<notin> fst ` set hs" by (simp add: map_of_eq_None_iff)
  then have "map_of (rev hs) k = None" by (simp add: map_of_eq_None_iff)
  with Some show ?thesis by (simp add: object_spread_def map_of_fold_update)
qed

lemma spread_present:
  "extra = Some hs \<Longrightarrow> distinct (map fst hs) \<Longrightarrow> map_of hs k = Some v
   \<Longrightarrow> map_of (object_spread base extra) k = Some v"
  by (simp add: object_spread_def map_of_fold_update map_of_rev_distinct)

lemma request_calls: "snd (request c net endpoint options) = [request_call c endpoint options]"
  by (simp add: request_def Let_def)

lemma header_of_request_call:
  "header_of (request_call c endpoint options) k = map_of (request_headers c options) k"
  by (simp add: header_of_def request_call_def)

lemma getTask_calls:
  "snd (getTask c net tid) = [request_call c (''/task/'' @ number_to_string tid) no_options]"
  by (simp add: getTask_def request_calls)

lemma listTaskSubtasks_alt:
  "listTaskSubtasks c net tid =
     (case fst (request c net (''/task/'' @ number_to_string tid @ ''/subtasks'') no_options) of
        Inl e \<Rightarrow> Inl e
      | Inr r \<Rightarrow> read_prop r ''data'' (\<lambda>d. get_prop d ''subtasks''),
      [request_call c (''/task/'' @ number_to_string tid @ ''/subtasks'') no_options])"
proof -
  obtain res calls
    where rq: "request c net (''/task/'' @ number_to_string tid @ ''/subtasks'') no_options
                 = (res, calls)"
    by (cases "request c net (''/task/'' @ number_to_string tid @ ''/subtasks'') no_options")
  with request_calls [of c net "''/task/'' @ number_to_string tid @ ''/subtasks''" no_options]
  have "calls = [request_call c (''/task/'' @ number_to_string tid @ ''/subtasks'') no_options]"
    by simp
  with rq show ?thesis
    by (cases res) (simp_all add: listTaskSubtasks_def)
qed

lemma listTaskSubtasks_calls:
  "snd (listTaskSubtasks c net tid)
     = [request_call c (''/task/'' @ number_to_string tid @ ''/subtasks'') no_options]"
  by (simp add: listTaskSubtasks_alt)

lemma downloadFile_calls: "snd (downloadFile c net u) = [download_call c u]"
  by (simp add: downloadFile_def Let_def)

section \<open>The outcome of a request\<close>

lemma request_result:
  "fst (request c net endpoint options) =
     (case net (request_call c endpoint options) of
        Inl e \<Rightarrow> Inl (wrap_error e)
      | Inr r \<Rightarrow>
          if \<not> ok r then Inl (wrap_error (new_Error_of (error_message r)))
          else (case json r of Inl e \<Rightarrow> Inl (wrap_error e) | Inr data \<Rightarrow> Inr data))"
  by (simp add: request_def Let_def split: sum.splits)

lemma wrap_error_Error [simp]:
  "instanceof_Error e \<Longrightarrow> wrap_error e = new_Error (''Freelo API error: '' @ message e)"
  by (simp add: wrap_error_def)

lemma wrap_error_new_Error [simp]:
  "wrap_error (new_Error m) = new_Error (''Freelo API error: '' @ m)"
  by (simp add: wrap_error_def new_Error_def)





section \<open>Authentication headers\<close>

lemma default_authorization:
  "option_header options ''Authorization'' = None \<Longrightarrow>
   header_of (request_call c endpoint options) ''Authorization''
     = Some (''Basic '' @ base64 (email c @ '':'' @ apiKey c))"
  by (simp add: header_of_request_call request_headers_def option_header_def spread_absent
      credentials_def)

lemma default_user_agent:
  "option_header options ''User-Agent'' = None \<Longrightarrow>
   header_of (request_call c endpoint options) ''User-Agent''
     = Some (''freelo-mcp ('' @ email c @ '')'')"
  by (simp add: header_of_request_call request_headers_def option_header_def spread_absent)

lemma override_wins:
  "well_formed_options options \<Longrightarrow> option_header options name = Some v \<Longrightarrow>
   header_of (request_call c endpoint options) name = Some v"
  by (cases "headers options")
    (simp_all add: header_of_request_call request_headers_def option_header_def
      well_formed_options_def spread_present)

lemma no_options_header [simp]: "option_header no_options name = None"
  by (simp add: option_header_def no_options_def)

lemma download_authorization:
  "header_of (download_call c u) ''Authorization''
     = Some (''Basic '' @ base64 (email c @ '':'' @ apiKey c))"
  by (simp add: header_of_def download_call_def credentials_def)

text \<open>
  Claim C1, as the code has it. \<^verbatim>\<open>request\<close> makes exactly one \<^verbatim>\<open>fetch\<close> call. Unless the caller's
  \<^verbatim>\<open>options.headers\<close> define the key themselves, its \<^verbatim>\<open>Authorization\<close> header is \<^verbatim>\<open>Basic\<close>
  followed by the base64 encoding of \<^verbatim>\<open>email:apiKey\<close> and its \<^verbatim>\<open>User-Agent\<close> embeds the email,
  whatever the endpoint, method and body. The caller's headers are spread after the
  defaults, so a key they define replaces the default value. The three accessors pass no
  such headers: every call they make carries the credential header.
\<close>

theorem authorization_header_unless_overridden:
  "snd (request c net endpoint options) = [request_call c endpoint options]
   \<and> (option_header options ''Authorization'' = None \<longrightarrow>
        header_of (request_call c endpoint options) ''Authorization''
          = Some (''Basic '' @ base64 (email c @ '':'' @ apiKey c)))
   \<and> (option_header options ''User-Agent'' = None \<longrightarrow>
        header_of (request_call c endpoint options) ''User-Agent''
          = Some (''freelo-mcp ('' @ email c @ '')''))
   \<and> (well_formed_options options \<and> option_header options name = Some v \<longrightarrow>
        header_of (request_call c endpoint options) name = Some v)
   \<and> (\<forall>call \<in> set (snd (getTask c net tid) @ snd (listTaskSubtasks c net tid)
                       @ snd (downloadFile c net uuid)).
        header_of call ''Authorization''
          = Some (''Basic '' @ base64 (email c @ '':'' @ apiKey c)))"
  by (simp add: request_calls default_authorization default_user_agent override_wins
      getTask_calls listTaskSubtasks_calls downloadFile_calls download_authorization)

theorem authorization_header_unless_overridden_witness:
  "header_of (request_call example_client ''/task/7'' no_options) ''Authorization''
     = Some ''Basic dXNlckBleGFtcGxlLmNvbTpzM2NyZXQ=''
   \<and> header_of (request_call example_client ''/task/7'' no_options) ''User-Agent''
     = Some ''freelo-mcp (user@example.com)''
   \<and> well_formed_options override_options
   \<and> option_header override_options ''Authorization'' = Some ''Bearer other''
   \<and> header_of (request_call example_client ''/task/7'' override_options) ''Authorization''
     = Some ''Bearer other''"
proof -
  have b: "base64 (email example_client @ '':'' @ apiKey example_client)
             = ''dXNlckBleGFtcGxlLmNvbTpzM2NyZXQ=''"
    by code_simp
  have w: "well_formed_options override_options"
    by (simp add: well_formed_options_def override_options_def)
  have o: "option_header override_options ''Authorization'' = Some ''Bearer other''"
    by (simp add: option_header_def override_options_def)
  from authorization_header_unless_overridden [where c = example_client and endpoint = "''/task/7''" and options = no_options]
       authorization_header_unless_overridden [where c = example_client and endpoint = "''/task/7''" and options = override_options
             and name = "''Authorization''" and v = "''Bearer other''"]
       b w o
  show ?thesis by (simp add: example_client_def)
qed

text \<open>
  Claim C1 as stated fails: with \<^verbatim>\<open>options.headers = {Authorization: "Bearer other"}\<close> the
  request that is dispatched carries the caller's value, not the credential value.
\<close>

theorem authorization_header_override_counterexample:
  "header_of (hd (snd (request example_client fetch_failed ''/task/7'' override_options)))
     ''Authorization'' = Some ''Bearer other''
   \<and> ''Bearer other'' \<noteq> ''Basic '' @ base64 (email example_client @ '':'' @ apiKey example_client)"
  by (simp add: request_calls header_of_request_call request_headers_def override_options_def
      object_spread_def)

section \<open>Transport faults\<close>

text \<open>
  Claim C2, as the code has it. In \<^verbatim>\<open>request\<close>, and so in \<^verbatim>\<open>getTask\<close> and \<^verbatim>\<open>listTaskSubtasks\<close>, an
  \<^verbatim>\<open>Error\<close> thrown by the transport is caught and thrown again as an \<^verbatim>\<open>Error\<close> whose message is
  \<^verbatim>\<open>Freelo API error: \<close> followed by the original message. \<^verbatim>\<open>downloadFile\<close> has no \<^verbatim>\<open>catch\<close>: what
  the transport throws reaches the caller unchanged.
\<close>

theorem transport_fault_handling:
  "(net (request_call c endpoint options) = Inl e \<and> instanceof_Error e \<longrightarrow>
      fst (request c net endpoint options)
        = Inl (new_Error (''Freelo API error: '' @ message e)))
   \<and> (net (request_call c (''/task/'' @ number_to_string tid) no_options) = Inl e
        \<and> instanceof_Error e \<longrightarrow>
      fst (getTask c net tid) = Inl (new_Error (''Freelo API error: '' @ message e)))
   \<and> (net (request_call c (''/task/'' @ number_to_string tid @ ''/subtasks'') no_options) = Inl e
        \<and> instanceof_Error e \<longrightarrow>
      fst (listTaskSubtasks c net tid) = Inl (new_Error (''Freelo API error: '' @ message e)))
   \<and> (net (download_call c uuid) = Inl e \<longrightarrow> fst (downloadFile c net uuid) = Inl e)"
proof -
  have r: "fst (request c net ep opts) = Inl (new_Error (''Freelo API error: '' @ message e))"
    if "net (request_call c ep opts) = Inl e" "instanceof_Error e" for ep opts
    using that by (simp add: request_result)
  have l: "fst (listTaskSubtasks c net tid) = Inl x"
    if "fst (request c net (''/task/'' @ number_to_string tid @ ''/subtasks'') no_options) = Inl x"
    for x
    using that by (simp add: listTaskSubtasks_alt)
  have d: "fst (downloadFile c net uuid) = Inl e" if "net (download_call c uuid) = Inl e"
    using that by (simp add: downloadFile_def Let_def)
  from r l d show ?thesis by (simp add: getTask_def)
qed

theorem transport_fault_handling_witness:
  "fst (getTask example_client fetch_failed 7) = Inl (new_Error ''Freelo API error: fetch failed'')
   \<and> fst (listTaskSubtasks example_client fetch_failed 7)
       = Inl (new_Error ''Freelo API error: fetch failed'')
   \<and> fst (downloadFile example_client fetch_failed ''550e8400-e29b-41d4-a716-446655440000'')
       = Inl (ErrorObj ''TypeError'' ''fetch failed'')"
  using transport_fault_handling [where net = fetch_failed and c = example_client and tid = 7
              and e = "ErrorObj ''TypeError'' ''fetch failed''"
              and uuid = "''550e8400-e29b-41d4-a716-446655440000''"]
  by (simp add: fetch_failed_def)

text \<open>
  Claim C2 as stated fails for \<^verbatim>\<open>downloadFile\<close>: when \<^verbatim>\<open>fetch\<close> rejects with
  \<^verbatim>\<open>TypeError: fetch failed\<close>, the caller receives that very \<^verbatim>\<open>TypeError\<close>, without the prefix.
\<close>

theorem downloadFile_transport_fault_counterexample:
  "fst (downloadFile example_client fetch_failed ''550e8400-e29b-41d4-a716-446655440000'')
     = Inl (ErrorObj ''TypeError'' ''fetch failed'')
   \<and> \<not> has_api_prefix (ErrorObj ''TypeError'' ''fetch failed'')"
  by (simp add: downloadFile_def Let_def fetch_failed_def has_api_prefix_def)

section \<open>Remote errors\<close>








section \<open>Successful responses\<close>

text \<open>
  Claim C8. When the response is ok and its body parses as JSON, \<^verbatim>\<open>getTask\<close> returns the parsed
  value as it is, after exactly one request: nothing is validated, added or removed, so a
  field that the body lacks is absent from the result.
\<close>

theorem getTask_returns_parsed_body:
  "net (request_call c (''/task/'' @ number_to_string tid) no_options) = Inr r \<Longrightarrow> ok r \<Longrightarrow>
   json r = Inr v \<Longrightarrow>
     getTask c net tid = (Inr v, [request_call c (''/task/'' @ number_to_string tid) no_options])"
  by (simp add: getTask_def prod_eq_iff request_result request_calls)

theorem getTask_returns_parsed_body_witness:
  "getTask example_client
     (respond_with (json_response 200 ''OK'' (JObj [(''id'', JNum 42), (''name'', JStr ''X'')]))) 42
   = (Inr (JObj [(''id'', JNum 42), (''name'', JStr ''X'')]),
      [request_call example_client ''/task/42'' no_options])
   \<and> get_prop (JObj [(''id'', JNum 42), (''name'', JStr ''X'')]) ''id'' = Inr (JNum 42)
   \<and> get_prop (JObj [(''id'', JNum 42), (''name'', JStr ''X'')]) ''name'' = Inr (JStr ''X'')
   \<and> get_prop (JObj [(''id'', JNum 42), (''name'', JStr ''X'')]) ''description'' = Inr JUndefined"
proof -
  let ?v = "JObj [(''id'', JNum 42), (''name'', JStr ''X'')]"
  let ?r = "json_response 200 ''OK'' ?v"
  have n: "number_to_string 42 = ''42''"
    by (simp add: number_to_string_def digits.simps digit_char_def)
  have a: "respond_with ?r (request_call example_client (''/task/'' @ number_to_string 42) no_options) = Inr ?r"
    by (simp add: respond_with_def)
  have b: "ok ?r" by (simp add: ok_def json_response_def)
  have c: "json ?r = Inr ?v" by (simp add: json_response_def)
  from getTask_returns_parsed_body [where net = "respond_with ?r" and c = example_client and tid = 42 and r = ?r
             and v = ?v] a b c
  show ?thesis by (simp add: n)
qed

text \<open>
  Claim C9. When the response is ok but \<^verbatim>\<open>response.json()\<close> rejects, \<^verbatim>\<open>request\<close> returns no value:
  it throws an \<^verbatim>\<open>Error\<close>, whose message is \<^verbatim>\<open>Freelo API error: \<close> followed by the message of the
  parse failure (a \<^verbatim>\<open>SyntaxError\<close>, an instance of \<^verbatim>\<open>Error\<close>). A value is returned for an ok
  response only when the body parsed, and it is the parsed body.
\<close>

theorem request_invalid_json_is_wrapped:
  "net (request_call c endpoint options) = Inr r \<Longrightarrow> ok r \<Longrightarrow>
     (json r = Inl e \<longrightarrow> (\<exists>msg. fst (request c net endpoint options) = Inl (new_Error msg)))
   \<and> (json r = Inl e \<and> instanceof_Error e \<longrightarrow>
        fst (request c net endpoint options)
          = Inl (new_Error (''Freelo API error: '' @ message e)))
   \<and> (fst (request c net endpoint options) = Inr v \<longrightarrow> json r = Inr v)"
  by (auto simp add: request_result wrap_error_def split: sum.splits)

theorem request_invalid_json_is_wrapped_witness:
  "fst (request example_client (respond_with (html_response 200 ''OK'')) ''/task/7'' no_options)
     = Inl (new_Error ''Freelo API error: Unexpected token < in JSON at position 0'')"
proof -
  let ?r = "html_response 200 ''OK''"
  have a: "respond_with ?r (request_call example_client ''/task/7'' no_options) = Inr ?r"
    by (simp add: respond_with_def)
  have b: "ok ?r" by (simp add: ok_def html_response_def)
  have c: "json ?r = Inl (ErrorObj ''SyntaxError'' ''Unexpected token < in JSON at position 0'')"
    by (simp add: html_response_def)
  from request_invalid_json_is_wrapped [where net = "respond_with ?r" and c = example_client and endpoint = "''/task/7''"
             and options = no_options and r = ?r
             and e = "ErrorObj ''SyntaxError'' ''Unexpected token < in JSON at position 0''"]
       a b c
  show ?thesis by simp
qed

text \<open>
  Claim C4. For a paginated envelope with the fields \<^verbatim>\<open>total\<close>, \<^verbatim>\<open>count\<close>, \<^verbatim>\<open>page\<close>, \<^verbatim>\<open>per_page\<close> and
  \<^verbatim>\<open>data.subtasks = xs\<close>, \<^verbatim>\<open>listTaskSubtasks\<close> returns exactly the array \<^verbatim>\<open>xs\<close>, in its order and
  without the envelope fields, after one single request (no further page is fetched).
\<close>

theorem listTaskSubtasks_unwraps_envelope:
  "net (request_call c (''/task/'' @ number_to_string tid @ ''/subtasks'') no_options) = Inr r \<Longrightarrow>
   ok r \<Longrightarrow>
   json r = Inr (JObj [(''total'', v_total), (''count'', v_count), (''page'', v_page),
                       (''per_page'', v_per_page), (''data'', JObj [(''subtasks'', JArr xs)])]) \<Longrightarrow>
   listTaskSubtasks c net tid
     = (Inr (JArr xs),
        [request_call c (''/task/'' @ number_to_string tid @ ''/subtasks'') no_options])"
proof -
  assume a: "net (request_call c (''/task/'' @ number_to_string tid @ ''/subtasks'') no_options) = Inr r"
    and b: "ok r"
    and j: "json r = Inr (JObj [(''total'', v_total), (''count'', v_count), (''page'', v_page),
                       (''per_page'', v_per_page), (''data'', JObj [(''subtasks'', JArr xs)])])"
  let ?ep = "''/task/'' @ number_to_string tid @ ''/subtasks''"
  let ?env = "JObj [(''total'', v_total), (''count'', v_count), (''page'', v_page),
                       (''per_page'', v_per_page), (''data'', JObj [(''subtasks'', JArr xs)])]"
  from a b j have "fst (request c net ?ep no_options) = Inr ?env"
    by (simp add: request_result)
  then show ?thesis
    by (simp add: listTaskSubtasks_alt read_prop_def)
qed

theorem listTaskSubtasks_unwraps_envelope_witness:
  "listTaskSubtasks example_client
     (respond_with (json_response 200 ''OK''
        (JObj [(''total'', JNum 5), (''count'', JNum 2), (''page'', JNum 1), (''per_page'', JNum 2),
               (''data'', JObj [(''subtasks'',
                   JArr [example_subtask ''active'', example_subtask ''completed''])])]))) 7
   = (Inr (JArr [example_subtask ''active'', example_subtask ''completed'']),
      [request_call example_client ''/task/7/subtasks'' no_options])"
proof -
  let ?xs = "[example_subtask ''active'', example_subtask ''completed'']"
  let ?v = "JObj [(''total'', JNum 5), (''count'', JNum 2), (''page'', JNum 1), (''per_page'', JNum 2),
               (''data'', JObj [(''subtasks'', JArr ?xs)])]"
  let ?r = "json_response 200 ''OK'' ?v"
  have n: "number_to_string 7 = ''7''"
    by (simp add: number_to_string_def digits.simps digit_char_def)
  have b: "ok ?r" by (simp add: ok_def json_response_def)
  have j: "json ?r = Inr ?v" by (simp add: json_response_def)
  from listTaskSubtasks_unwraps_envelope [where net = "respond_with ?r" and c = example_client and tid = 7 and r = ?r
             and v_total = "JNum 5" and v_count = "JNum 2" and v_page = "JNum 1"
             and v_per_page = "JNum 2" and xs = ?xs] b j
  show ?thesis by (simp add: n respond_with_def)
qed

text \<open>
  Claim C7. \<^verbatim>\<open>downloadFile\<close> makes one \<^verbatim>\<open>fetch\<close> call: a GET of \<^verbatim>\<open>baseUrl/file/<uuid>\<close> whose
  headers are \<^verbatim>\<open>Authorization\<close> and \<^verbatim>\<open>User-Agent\<close> only (no \<^verbatim>\<open>Content-Type\<close>). When the response is
  ok, it returns the bytes of \<^verbatim>\<open>response.arrayBuffer()\<close> unchanged.
\<close>

theorem downloadFile_contract:
  "snd (downloadFile c net uuid) = [download_call c uuid]
   \<and> url (download_call c uuid) = baseUrl c @ ''/file/'' @ uuid
   \<and> effective_method (init (download_call c uuid)) = ''GET''
   \<and> headers (init (download_call c uuid))
       = Some [(''Authorization'', ''Basic '' @ base64 (email c @ '':'' @ apiKey c)),
               (''User-Agent'', ''freelo-mcp ('' @ email c @ '')'')]
   \<and> header_of (download_call c uuid) ''Content-Type'' = None
   \<and> (net (download_call c uuid) = Inr r \<and> ok r \<and> arrayBuffer r = Inr bytes \<longrightarrow>
        fst (downloadFile c net uuid) = Inr bytes)"
  by (simp add: downloadFile_def Let_def download_call_def effective_method_def header_of_def
      credentials_def)

theorem downloadFile_contract_witness:
  "fst (downloadFile example_client (respond_with (bytes_response [0x89, 0x50, 0x4E, 0x47, 0xFF, 0x00]))
         ''550e8400-e29b-41d4-a716-446655440000'')
     = Inr [0x89, 0x50, 0x4E, 0x47, 0xFF, 0x00]
   \<and> url (download_call example_client ''550e8400-e29b-41d4-a716-446655440000'')
     = ''https://api.freelo.io/v1/file/550e8400-e29b-41d4-a716-446655440000''"
  using downloadFile_contract [where net = "respond_with (bytes_response [0x89, 0x50, 0x4E, 0x47, 0xFF, 0x00])"
              and c = example_client and uuid = "''550e8400-e29b-41d4-a716-446655440000''"
              and r = "bytes_response [0x89, 0x50, 0x4E, 0x47, 0xFF, 0x00]"
              and bytes = "[0x89, 0x50, 0x4E, 0x47, 0xFF, 0x00]"]
  by (simp add: respond_with_def bytes_response_def ok_def example_client_def)

section \<open>Construction and unsupported operations\<close>

lemma createFreeloClient_ok:
  "env ''FREELO_EMAIL'' = Some em \<Longrightarrow> em \<noteq> [] \<Longrightarrow> env ''FREELO_API_KEY'' = Some key \<Longrightarrow> key \<noteq> []
   \<Longrightarrow> createFreeloClient env = Inr \<lparr>email = em, apiKey = key, baseUrl = ''https://api.freelo.io/v1''\<rparr>"
  by (simp add: createFreeloClient_def new_FreeloApiClient_def)

lemma createFreeloClient_fails:
  "env ''FREELO_EMAIL'' = None \<or> env ''FREELO_EMAIL'' = Some []
   \<or> env ''FREELO_API_KEY'' = None \<or> env ''FREELO_API_KEY'' = Some []
   \<Longrightarrow> \<exists>msg. createFreeloClient env = Inl (new_Error msg)"
  by (auto simp add: createFreeloClient_def split: option.splits)

lemma execute_without_client:
  "createFreeloClient env = Inl e \<Longrightarrow> execute env net input = (failure_result e, [])"
  by (simp add: execute_def)

text \<open>
  Claim C5. The constructor succeeds for every non-empty email and API key and throws
  when either is empty; \<^verbatim>\<open>createFreeloClient\<close> does the same for the two environment
  variables, absent or empty. When it throws there is no client to call, and the tool
  built on it returns its failure object without a single \<^verbatim>\<open>fetch\<close> call.
\<close>

theorem construction_contract:
  "(em \<noteq> [] \<and> key \<noteq> [] \<longrightarrow>
      new_FreeloApiClient em key
        = Inr \<lparr>email = em, apiKey = key, baseUrl = ''https://api.freelo.io/v1''\<rparr>)
   \<and> (em = [] \<or> key = [] \<longrightarrow> (\<exists>msg. new_FreeloApiClient em key = Inl (new_Error msg)))
   \<and> (env ''FREELO_EMAIL'' = Some em \<and> em \<noteq> [] \<and> env ''FREELO_API_KEY'' = Some key \<and> key \<noteq> [] \<longrightarrow>
        createFreeloClient env
          = Inr \<lparr>email = em, apiKey = key, baseUrl = ''https://api.freelo.io/v1''\<rparr>)
   \<and> (env ''FREELO_EMAIL'' = None \<or> env ''FREELO_EMAIL'' = Some []
        \<or> env ''FREELO_API_KEY'' = None \<or> env ''FREELO_API_KEY'' = Some [] \<longrightarrow>
        (\<exists>msg. createFreeloClient env = Inl (new_Error msg)
           \<and> execute env net input
               = (JObj [(''success'', JBool False), (''error'', JStr msg)], [])))"
proof -
  have "env ''FREELO_EMAIL'' = None \<or> env ''FREELO_EMAIL'' = Some []
        \<or> env ''FREELO_API_KEY'' = None \<or> env ''FREELO_API_KEY'' = Some [] \<Longrightarrow>
        (\<exists>msg. createFreeloClient env = Inl (new_Error msg)
           \<and> execute env net input
               = (JObj [(''success'', JBool False), (''error'', JStr msg)], []))"
  proof -
    assume "env ''FREELO_EMAIL'' = None \<or> env ''FREELO_EMAIL'' = Some []
        \<or> env ''FREELO_API_KEY'' = None \<or> env ''FREELO_API_KEY'' = Some []"
    then obtain msg where m: "createFreeloClient env = Inl (new_Error msg)"
      using createFreeloClient_fails by blast
    then have "execute env net input
               = (JObj [(''success'', JBool False), (''error'', JStr msg)], [])"
      by (simp add: execute_without_client failure_result_def new_Error_def)
    with m show ?thesis by blast
  qed
  moreover have "em = [] \<or> key = [] \<longrightarrow> (\<exists>msg. new_FreeloApiClient em key = Inl (new_Error msg))"
    by (auto simp add: new_FreeloApiClient_def)
  moreover have "em \<noteq> [] \<and> key \<noteq> [] \<longrightarrow>
      new_FreeloApiClient em key
        = Inr \<lparr>email = em, apiKey = key, baseUrl = ''https://api.freelo.io/v1''\<rparr>"
    by (simp add: new_FreeloApiClient_def)
  ultimately show ?thesis
    using createFreeloClient_ok [of env em key] by blast
qed

theorem construction_contract_witness:
  "new_FreeloApiClient ''user@example.com'' ''s3cret'' = Inr example_client
   \<and> createFreeloClient example_env = Inr example_client
   \<and> (\<exists>msg. new_FreeloApiClient '''' ''s3cret'' = Inl (new_Error msg))
   \<and> (\<exists>msg. createFreeloClient (example_env(''FREELO_API_KEY'' := None)) = Inl (new_Error msg)
        \<and> execute (example_env(''FREELO_API_KEY'' := None)) fetch_failed \<lparr>taskId = 7\<rparr>
             = (JObj [(''success'', JBool False), (''error'', JStr msg)], []))"
  using construction_contract [of "''user@example.com''" "''s3cret''" example_env fetch_failed "\<lparr>taskId = 7\<rparr>"]
        construction_contract [of "''''" "''s3cret''" "example_env(''FREELO_API_KEY'' := None)" fetch_failed "\<lparr>taskId = 7\<rparr>"]
  by (simp add: example_env_def example_client_def)

text \<open>
  Claim C6. \<^verbatim>\<open>listTaskAttachments\<close> and \<^verbatim>\<open>getAttachment\<close> throw, for every client, transport and
  argument, the same \<^verbatim>\<open>Error\<close>: it names the unsupported endpoint and the accessor to use
  instead (\<^verbatim>\<open>getTask()\<close>, \<^verbatim>\<open>downloadFile(uuid)\<close>). Neither makes a \<^verbatim>\<open>fetch\<close> call.
\<close>

theorem unsupported_accessors_always_throw:
  "listTaskAttachments c net tid =
     (Inl (new_Error ''API does not support /task/{id}/attachments endpoint. Files are included in task comments. Use getTask() instead.''), [])
   \<and> getAttachment c net aid =
     (Inl (new_Error ''API does not support /attachments/{id} endpoint. Files use UUIDs. Use downloadFile(uuid) instead.''), [])"
  by (simp add: listTaskAttachments_def getAttachment_def)

section \<open>Rounding to a double\<close>

lemma round_even_nonneg: "0 \<le> z \<Longrightarrow> 0 \<le> round_even z"
  by (auto simp add: round_even_def Let_def)

lemma round_even_le: "z \<le> of_int n \<Longrightarrow> round_even z \<le> n"
proof -
  assume a: "z \<le> of_int n"
  then have f: "\<lfloor>z\<rfloor> \<le> n" by (simp add: floor_le_iff) 
  show ?thesis
  proof (cases "\<lfloor>z\<rfloor> = n")
    case True
    with a have "z = of_int n" using of_int_floor_le [of z] by simp
    then show ?thesis by (simp add: round_even_def Let_def)
  next
    case False
    with f have "\<lfloor>z\<rfloor> + 1 \<le> n" by simp
    then show ?thesis by (auto simp add: round_even_def Let_def)
  qed
qed

lemma ilog2_ge1:
  fixes x :: rat
  assumes "1 \<le> x"
  shows "2 powi ilog2 x \<le> x" and "x < 2 powi (ilog2 x + 1)"
proof -
  define n where "n = nat \<lfloor>x\<rfloor>"
  define L where "L = floorlog 2 n"
  from assms have fx: "1 \<le> \<lfloor>x\<rfloor>" by simp
  then have n: "0 < n" "int n = \<lfloor>x\<rfloor>" by (simp_all add: n_def)
  from floorlog_bounds [of n 2] n have b: "2 ^ (L - 1) \<le> n" "n < 2 ^ L"
    by (simp_all add: L_def)
  from n have "L \<noteq> 0" by (simp add: L_def floorlog_eq_zero_iff)
  then have L: "0 < L" by simp
  have i: "ilog2 x = int L - 1" using assms by (simp add: ilog2_def L_def n_def)
  have "(2::rat) powi (int L - 1) = 2 ^ (L - 1)"
    using L by (simp add: power_int_def nat_diff_distrib' of_nat_diff)
  also have "\<dots> \<le> of_nat n" using b(1) by (metis of_nat_le_iff of_nat_numeral of_nat_power)
  also have "\<dots> = of_int \<lfloor>x\<rfloor>" using n(2) by (metis of_int_of_nat_eq)
  also have "\<dots> \<le> x" by simp
  finally show "2 powi ilog2 x \<le> x" by (simp add: i)
  have "x < of_int (\<lfloor>x\<rfloor> + 1)" by linarith
  also have "\<dots> = of_nat (n + 1)" using n(2) by (metis of_int_of_nat_eq of_nat_Suc Suc_eq_plus1 of_int_add of_int_1 of_nat_add of_nat_1)
  also have "\<dots> \<le> of_nat (2 ^ L)" using b(2) by (simp only: of_nat_le_iff)
  also have "\<dots> = (2::rat) powi (int L)" by (simp add: power_int_def)
  finally show "x < 2 powi (ilog2 x + 1)" by (simp add: i)
qed

lemma ilog2_lt1:
  fixes x :: rat
  assumes "0 < x" "x < 1"
  shows "2 powi ilog2 x \<le> x" and "x < 2 powi (ilog2 x + 1)"
proof -
  define y where "y = 1 / x"
  define m where "m = nat \<lceil>y\<rceil>"
  define L where "L = floorlog 2 (m - 1)"
  from assms have y: "1 < y" by (simp add: y_def)
  then have cy: "2 \<le> \<lceil>y\<rceil>" by (simp add: le_ceiling_iff)
  then have m: "2 \<le> m" "int m = \<lceil>y\<rceil>" unfolding m_def by linarith+
  from floorlog_bounds [of "m - 1" 2] m have b: "2 ^ (L - 1) \<le> m - 1" "m - 1 < 2 ^ L"
    by (simp_all add: L_def)
  from m have "L \<noteq> 0" by (simp add: L_def floorlog_eq_zero_iff)
  then have L: "0 < L" by simp
  have i: "ilog2 x = - int L" using assms by (simp add: ilog2_def L_def m_def y_def)
  have xy: "x = 1 / y" using assms by (simp add: y_def)
  have "y \<le> of_int \<lceil>y\<rceil>" by simp
  also have "\<dots> = of_nat m" using m(2) by (metis of_int_of_nat_eq)
  also have "\<dots> \<le> of_nat (2 ^ L)" using b(2) m(1) by (simp only: of_nat_le_iff)
  finally have yle: "y \<le> 2 ^ L" by simp
  have "(2::rat) powi (- int L) = 1 / 2 ^ L" by (simp add: power_int_def divide_simps)
  also have "\<dots> \<le> 1 / y" using yle y by (simp add: frac_le)
  finally show "2 powi ilog2 x \<le> x" unfolding i using xy by simp
  have "(2::rat) ^ (L - 1) \<le> of_nat (m - 1)"
    using b(1) by (metis of_nat_le_iff of_nat_numeral of_nat_power)
  also have "\<dots> = of_int (\<lceil>y\<rceil> - 1)" using m by (simp add: of_nat_diff flip: m(2))
  also have "\<dots> < y" by linarith
  finally have ylt: "2 ^ (L - 1) < y" .
  have "1 / y < 1 / 2 ^ (L - 1)" using ylt by (simp add: frac_less2)
  also have "\<dots> = (2::rat) powi (- int L + 1)"
    using L by (simp add: power_int_def nat_diff_distrib' divide_simps)
  finally show "x < 2 powi (ilog2 x + 1)" unfolding i using xy by simp
qed

lemma ilog2_bounds:
  fixes x :: rat
  assumes "0 < x"
  shows "2 powi ilog2 x \<le> x" and "x < 2 powi (ilog2 x + 1)"
  using assms ilog2_ge1 [of x] ilog2_lt1 [of x] by (cases "1 \<le> x"; simp)+

lemma exponent_less:
  fixes x y :: rat
  assumes "2 powi a \<le> x" "x \<le> y" "y < 2 powi (b + 1)"
  shows "a \<le> b"
proof (rule ccontr)
  assume "\<not> a \<le> b"
  then have "b + 1 \<le> a" by simp
  then have "(2::rat) powi (b + 1) \<le> 2 powi a" by (rule power_int_increasing) simp
  with assms show False by simp
qed

lemma ilog2_unique:
  fixes x :: rat
  assumes "0 < x" "2 powi e \<le> x" "x < 2 powi (e + 1)"
  shows "ilog2 x = e"
proof -
  from ilog2_bounds [OF assms(1)] assms(2,3)
  have "ilog2 x \<le> e" "e \<le> ilog2 x"
    using exponent_less [of "ilog2 x" x x e] exponent_less [of e x x "ilog2 x"] by simp_all
  then show ?thesis by simp
qed

lemma fl_pos_unfold:
  "0 < x \<Longrightarrow> fl x = of_int (round_even (x / 2 powi (ilog2 x - 52))) * 2 powi (ilog2 x - 52)"
  by (simp add: fl_def Let_def)

lemma fl_nonneg: "0 \<le> x \<Longrightarrow> 0 \<le> fl x"
proof (cases "x = 0")
  case True
  then show ?thesis by (simp add: fl_def)
next
  case False
  assume "0 \<le> x"
  with False have x: "0 < x" by simp
  then have "0 \<le> x / 2 powi (ilog2 x - 52)" by simp
  then have "0 \<le> round_even (x / 2 powi (ilog2 x - 52))" by (rule round_even_nonneg)
  then show ?thesis using x by (simp add: fl_pos_unfold)
qed

lemma fl_le_bound:
  assumes x: "0 < x" and xb: "x \<le> b" and rep: "b = of_int m * 2 powi (ilog2 b - 52)"
  shows "fl x \<le> b"
proof -
  define e where "e = ilog2 x"
  define u :: rat where "u = 2 powi (e - 52)"
  have u: "0 < u" by (simp add: u_def)
  from x xb have b: "0 < b" by simp
  have f: "fl x = of_int (round_even (x / u)) * u"
    using x by (simp add: fl_pos_unfold e_def u_def)
  from ilog2_bounds [OF x] have ex: "2 powi e \<le> x" "x < 2 powi (e + 1)" by (simp_all add: e_def)
  from ilog2_bounds [OF b] have eb: "2 powi ilog2 b \<le> b" "b < 2 powi (ilog2 b + 1)" by simp_all
  from ex(1) xb eb(2) have le: "e \<le> ilog2 b" by (rule exponent_less)
  show ?thesis
  proof (cases "e = ilog2 b")
    case True
    with rep have "b = of_int m * u" by (simp add: u_def)
    with xb u have "x / u \<le> of_int m" by (simp add: field_simps)
    then have "round_even (x / u) \<le> m" by (rule round_even_le)
    then have "of_int (round_even (x / u)) * u \<le> of_int m * u"
      using u by (simp add: mult_right_mono)
    with f \<open>b = of_int m * u\<close> show ?thesis by simp
  next
    case False
    with le have lt: "e + 1 \<le> ilog2 b" by simp
    have "(2::rat) powi (53 + (e - 52)) = 2 powi 53 * 2 powi (e - 52)"
      by (rule power_int_add) simp
    moreover have "53 + (e - 52) = e + 1" by simp
    ultimately have p: "(2::rat) powi (e + 1) = of_int (2 ^ 53) * u"
      by (simp add: u_def)
    with ex(2) u have "x / u \<le> of_int (2 ^ 53)" by (simp add: field_simps)
    then have "round_even (x / u) \<le> 2 ^ 53" by (rule round_even_le)
    then have "of_int (round_even (x / u)) * u \<le> of_int (2 ^ 53) * u"
      using u by (simp only: mult_right_mono of_int_le_iff less_imp_le)
    with f p have "fl x \<le> 2 powi (e + 1)" by simp
    also have "\<dots> \<le> 2 powi ilog2 b" using lt by (rule power_int_increasing) simp
    also have "\<dots> \<le> b" by (rule eb(1))
    finally show ?thesis .
  qed
qed

lemma ilog2_1: "ilog2 1 = 0"
  by (rule ilog2_unique) simp_all

lemma ilog2_100: "ilog2 100 = 6"
  by (rule ilog2_unique) simp_all

lemma fl_le_1: "0 < x \<Longrightarrow> x \<le> 1 \<Longrightarrow> fl x \<le> 1"
  by (rule fl_le_bound [where m = "2 ^ 52"]) (simp_all add: ilog2_1 power_int_minus)

lemma fl_le_100: "0 < x \<Longrightarrow> x \<le> 100 \<Longrightarrow> fl x \<le> 100"
  by (rule fl_le_bound [where m = "100 * 2 ^ 46"]) (simp_all add: ilog2_100 power_int_minus)

lemma fl_0 [simp]: "fl 0 = 0"
  by (simp add: fl_def)

lemma completionPercentage_range:
  assumes "c \<le> t"
  shows "0 \<le> completionPercentage c t" and "completionPercentage c t \<le> 100"
proof -
  show "0 \<le> completionPercentage c t"
  proof (cases "0 < t")
    case True
    have "0 \<le> js_div (of_nat c) (of_nat t)" by (simp add: js_div_def fl_nonneg)
    then have "0 \<le> js_mul (js_div (of_nat c) (of_nat t)) 100" by (simp add: js_mul_def fl_nonneg)
    then have "0 \<le> Math_round (js_mul (js_div (of_nat c) (of_nat t)) 100)"
      by (simp add: Math_round_def)
    with True show ?thesis by (simp add: completionPercentage_def)
  next
    case False
    then show ?thesis by (simp add: completionPercentage_def)
  qed
  show "completionPercentage c t \<le> 100"
  proof (cases "0 < t")
    case True
    define q where "q = js_div (of_nat c) (of_nat t)"
    have q0: "0 \<le> q" by (simp add: q_def js_div_def fl_nonneg)
    have q1: "q \<le> 1"
    proof (cases "c = 0")
      case True
      then show ?thesis by (simp add: q_def js_div_def)
    next
      case False
      with assms \<open>0 < t\<close> have "0 < (of_nat c / of_nat t :: rat)" "(of_nat c / of_nat t :: rat) \<le> 1"
        by simp_all
      then show ?thesis unfolding q_def js_div_def by (rule fl_le_1)
    qed
    have "js_mul q 100 \<le> 100"
    proof (cases "q = 0")
      case True
      then show ?thesis by (simp add: js_mul_def)
    next
      case False
      with q0 q1 have "0 < q * 100" "q * 100 \<le> 100" by simp_all
      then show ?thesis unfolding js_mul_def by (rule fl_le_100)
    qed
    then have "Math_round (js_mul q 100) \<le> 100"
      by (simp add: Math_round_def floor_le_iff)
    with True show ?thesis by (simp add: completionPercentage_def q_def)
  next
    case False
    then show ?thesis by (simp add: completionPercentage_def)
  qed
qed

lemma round_even_error: "\<bar>of_int (round_even z) - z\<bar> \<le> 1 / 2"
proof -
  have "of_int \<lfloor>z\<rfloor> \<le> z" "z < of_int \<lfloor>z\<rfloor> + 1" by linarith+
  then show ?thesis
    by (auto simp add: round_even_def Let_def abs_le_iff)
qed

lemma fl_error:
  assumes "0 < x"
  shows "\<bar>fl x - x\<bar> \<le> x / 2 ^ 53"
proof -
  define u :: rat where "u = 2 powi (ilog2 x - 52)"
  have u: "0 < u" by (simp add: u_def)
  have f: "fl x = of_int (round_even (x / u)) * u"
    using assms by (simp add: fl_pos_unfold u_def)
  have "fl x - x = (of_int (round_even (x / u)) - x / u) * u"
    using u by (simp add: f algebra_simps)
  then have "\<bar>fl x - x\<bar> = \<bar>of_int (round_even (x / u)) - x / u\<bar> * u"
    using u by (simp add: abs_mult)
  also have "\<dots> \<le> 1 / 2 * u"
    using round_even_error [of "x / u"] u by (simp only: mult_right_mono less_imp_le)
  finally have a: "\<bar>fl x - x\<bar> \<le> u / 2" by simp
  have "(2::rat) powi (52 + (ilog2 x - 52)) = 2 powi 52 * 2 powi (ilog2 x - 52)"
    by (rule power_int_add) simp
  then have "(2::rat) powi ilog2 x = 2 ^ 52 * u" by (simp add: u_def)
  with ilog2_bounds(1) [OF assms] have "2 ^ 52 * u \<le> x" by simp
  then have "u / 2 \<le> x / 2 ^ 53" by simp
  with a show ?thesis by simp
qed

lemma percentage_error:
  assumes "c \<le> t" "0 < t"
  shows "\<bar>js_mul (js_div (of_nat c) (of_nat t)) 100 - 100 * of_nat c / of_nat t\<bar> \<le> 200 / 2 ^ 53"
proof (cases "c = 0")
  case True
  then show ?thesis by (simp add: js_mul_def js_div_def)
next
  case False
  define x :: rat where "x = of_nat c / of_nat t"
  define q where "q = fl x"
  from False assms have x: "0 < x" "x \<le> 1" by (simp_all add: x_def)
  have q1: "q \<le> 1" unfolding q_def using x by (rule fl_le_1)
  have q0: "0 \<le> q" unfolding q_def using x by (simp add: fl_nonneg)
  have eq: "\<bar>q - x\<bar> \<le> x / 2 ^ 53" unfolding q_def using x(1) by (rule fl_error)
  with x(2) have e1: "\<bar>q - x\<bar> \<le> 1 / 2 ^ 53" by simp
  have e2: "\<bar>fl (q * 100) - q * 100\<bar> \<le> 100 / 2 ^ 53"
  proof (cases "q = 0")
    case True
    then show ?thesis by simp
  next
    case False
    with q0 have "0 < q * 100" by simp
    then have "\<bar>fl (q * 100) - q * 100\<bar> \<le> q * 100 / 2 ^ 53" by (rule fl_error)
    with q1 show ?thesis by simp
  qed
  have "\<bar>fl (q * 100) - 100 * x\<bar> \<le> \<bar>fl (q * 100) - q * 100\<bar> + 100 * \<bar>q - x\<bar>"
    by (simp add: abs_le_iff abs_if) 
  with e1 e2 have "\<bar>fl (q * 100) - 100 * x\<bar> \<le> 200 / 2 ^ 53" by simp
  then show ?thesis by (simp add: js_mul_def js_div_def q_def x_def)
qed

lemma floor_near_quotient:
  fixes p :: rat and N D :: int
  assumes D: "0 < D" and near: "\<bar>p - of_int N / of_int D\<bar> \<le> d" and d: "d < 1 / of_int D"
  shows "N mod D \<noteq> 0 \<Longrightarrow> \<lfloor>p\<rfloor> = N div D"
    and "\<lfloor>p\<rfloor> = N div D \<or> \<lfloor>p\<rfloor> = N div D - 1"
proof -
  define R where "R = N div D"
  define r where "r = N mod D"
  have N: "N = R * D + r" by (simp add: R_def r_def)
  have r: "0 \<le> r" "r < D" using D by (simp_all add: r_def)
  have q: "of_int N / of_int D = (of_int R :: rat) + of_int r / of_int D"
    using D by (simp add: N field_simps)
  have D1: "1 / (of_int D :: rat) \<le> 1" using D by simp
  have hi: "p < of_int R + 1"
  proof -
    from r(2) have "r \<le> D - 1" by simp
    then have "(of_int r :: rat) \<le> of_int D - 1" by (metis of_int_le_iff of_int_diff of_int_1)
    then have "(of_int r :: rat) / of_int D \<le> 1 - 1 / of_int D"
      using D by (simp add: field_simps)
    with near d q show ?thesis by (simp add: abs_le_iff)
  qed
  have lo: "of_int R - 1 < p"
  proof -
    have "0 \<le> (of_int r :: rat) / of_int D" using r(1) D by simp
    with near d q D1 show ?thesis by (simp add: abs_le_iff)
  qed
  show "\<lfloor>p\<rfloor> = N div D" if "N mod D \<noteq> 0"
  proof -
    from that r(1) have "1 \<le> r" by (simp add: r_def)
    then have "1 / of_int D \<le> (of_int r :: rat) / of_int D"
      using D by (simp add: divide_right_mono)
    with near d q have "of_int R \<le> p" by (simp add: abs_le_iff)
    with hi have "\<lfloor>p\<rfloor> = R" by (simp add: floor_unique)
    then show ?thesis by (simp add: R_def)
  qed
  show "\<lfloor>p\<rfloor> = N div D \<or> \<lfloor>p\<rfloor> = N div D - 1"
  proof (cases "of_int R \<le> p")
    case True
    with hi have "\<lfloor>p\<rfloor> = R" by (simp add: floor_unique)
    then show ?thesis by (simp add: R_def)
  next
    case False
    with lo have "of_int (R - 1) \<le> p" "p < of_int (R - 1) + 1" by simp_all
    then have "\<lfloor>p\<rfloor> = R - 1" by (rule floor_unique)
    then show ?thesis by (simp add: R_def)
  qed
qed

lemma exact_percentage:
  assumes "0 < t"
  shows "Math_round (100 * of_nat c / of_nat t) = (200 * int c + int t) div (2 * int t)"
    and "100 * of_nat c / of_nat t + (1 / 2 :: rat) = of_int (200 * int c + int t) / of_int (2 * int t)"
proof -
  show e: "100 * of_nat c / of_nat t + (1 / 2 :: rat) = of_int (200 * int c + int t) / of_int (2 * int t)"
    using assms by (simp add: field_simps)
  show "Math_round (100 * of_nat c / of_nat t) = (200 * int c + int t) div (2 * int t)"
    unfolding Math_round_def e by (rule floor_divide_of_int_eq)
qed

lemma completionPercentage_accuracy:
  assumes ct: "c \<le> t" and t: "0 < t" "t < 2 ^ 32"
  shows "100 * of_nat c / of_nat t + (1 / 2 :: rat) \<notin> \<int> \<Longrightarrow>
           completionPercentage c t = Math_round (100 * of_nat c / of_nat t)"
    and "completionPercentage c t = Math_round (100 * of_nat c / of_nat t)
         \<or> completionPercentage c t = Math_round (100 * of_nat c / of_nat t) - 1"
proof -
  define p where "p = js_mul (js_div (of_nat c) (of_nat t)) 100 + 1 / 2"
  define N where "N = 200 * int c + int t"
  define D where "D = 2 * int t"
  have D: "0 < D" using t by (simp add: D_def)
  have cp: "completionPercentage c t = \<lfloor>p\<rfloor>"
    using t by (simp add: completionPercentage_def Math_round_def p_def)
  have ex: "Math_round (100 * of_nat c / of_nat t) = N div D"
    using exact_percentage(1) [OF t(1)] by (simp add: N_def D_def)
  have "\<bar>p - of_int N / of_int D\<bar>
          = \<bar>js_mul (js_div (of_nat c) (of_nat t)) 100 - 100 * of_nat c / of_nat t\<bar>"
    using exact_percentage(2) [OF t(1), of c] by (simp add: p_def N_def D_def)
  with percentage_error [OF ct t(1)] have near: "\<bar>p - of_int N / of_int D\<bar> \<le> 200 / 2 ^ 53"
    by simp
  from t(2) have "int t < 2 ^ 32" by (metis of_nat_less_iff of_nat_numeral of_nat_power)
  then have "400 * int t < 2 ^ 53" by simp
  then have "(400 * of_int (int t) :: rat) < 2 ^ 53"
    by (metis of_int_less_iff of_int_mult of_int_numeral of_int_power)
  then have d: "(200 / 2 ^ 53 :: rat) < 1 / of_int D"
    using t(1) by (simp add: D_def field_simps)
  show "completionPercentage c t = Math_round (100 * of_nat c / of_nat t)"
    if "100 * of_nat c / of_nat t + (1 / 2 :: rat) \<notin> \<int>"
  proof -
    have "N mod D \<noteq> 0"
    proof
      assume "N mod D = 0"
      then have "D dvd N" by (simp add: dvd_eq_mod_eq_0)
      then have "(of_int N / of_int D :: rat) \<in> \<int>" by (rule of_int_divide_in_Ints)
      with that exact_percentage(2) [OF t(1), of c] show False by (simp add: N_def D_def)
    qed
    with floor_near_quotient(1) [OF D near d] cp ex show ?thesis by simp
  qed
  from floor_near_quotient(2) [OF D near d] cp ex
  show "completionPercentage c t = Math_round (100 * of_nat c / of_nat t)
         \<or> completionPercentage c t = Math_round (100 * of_nat c / of_nat t) - 1"
    by simp
qed

lemma completionPercentage_23_of_40: "completionPercentage 23 40 = 57"
  by code_simp

lemma exact_percentage_23_of_40: "Math_round (100 * 23 / 40) = 58"
  by code_simp

section \<open>Statistics of the subtask list\<close>

lemma and_then_Inr: "and_then r f = Inr y \<Longrightarrow> \<exists>x. r = Inr x \<and> f x = Inr y"
  by (cases r) (simp_all add: and_then_def)

lemma format_subtask_state:
  assumes "format_subtask st = Inr f"
  shows "get_prop f ''state'' = get_prop2 st ''state'' ''state''"
proof -
  from assms show ?thesis
    unfolding format_subtask_def
    by (auto dest!: and_then_Inr split: if_splits)
qed

lemma map_throw_length: "map_throw f xs = Inr ys \<Longrightarrow> length ys = length xs"
  by (induction xs arbitrary: ys) (auto split: sum.splits)

lemma map_throw_filter:
  assumes "\<And>x y. f x = Inr y \<Longrightarrow> Q y = P x"
  shows "map_throw f xs = Inr ys \<Longrightarrow> length (filter Q ys) = length (filter P xs)"
  using assms by (induction xs arbitrary: ys) (auto split: sum.splits)

lemma map_throw_replicate: "f x = Inr y \<Longrightarrow> map_throw f (replicate n x) = Inr (replicate n y)"
  by (induction n) simp_all

lemma map_throw_append:
  "map_throw f xs = Inr ys \<Longrightarrow> map_throw f xs' = Inr ys' \<Longrightarrow> map_throw f (xs @ xs') = Inr (ys @ ys')"
  by (induction xs arbitrary: ys) (auto split: sum.splits)

lemma is_completed_formatted:
  "format_subtask st = Inr f \<Longrightarrow> is_completed f = subtask_done st"
  by (simp add: is_completed_def subtask_done_def format_subtask_state)

lemma formatted_counts:
  assumes "map_throw format_subtask subtasks = Inr formatted"
  shows "length formatted = length subtasks"
    and "length (filter is_completed formatted) = length (filter subtask_done subtasks)"
  using assms map_throw_length map_throw_filter [of format_subtask is_completed subtask_done]
    is_completed_formatted by blast+

lemma execute_success:
  assumes "createFreeloClient env = Inr client"
    and "fst (listTaskSubtasks client net (taskId input)) = Inr (JArr subtasks)"
    and "map_throw format_subtask subtasks = Inr formatted"
  shows "fst (execute env net input) =
     JObj [(''success'', JBool True), (''taskId'', JNum (taskId input)),
           (''statistics'', statistics formatted), (''subtasks'', JArr formatted)]"
  using assms by (cases "listTaskSubtasks client net (taskId input)") (simp add: execute_def)

lemma format_example_subtask: "\<exists>f. format_subtask (example_subtask s) = Inr f"
  by (simp add: format_subtask_def example_subtask_def and_then_def get_prop2_def)

lemma example_client_created: "createFreeloClient example_env = Inr example_client"
  by (simp add: createFreeloClient_def example_env_def example_client_def new_FreeloApiClient_def)

lemma example_envelope_listed:
  "fst (listTaskSubtasks example_client (respond_with (json_response 200 ''OK'' (envelope xs))) tid)
     = Inr (JArr xs)"
  by (simp add: listTaskSubtasks_alt request_result respond_with_def json_response_def ok_def
      envelope_def read_prop_def)

lemma subtask_done_example:
  "subtask_done (example_subtask s) \<longleftrightarrow> s = ''completed'' \<or> s = ''finished''"
  by (simp add: subtask_done_def example_subtask_def get_prop2_def and_then_def)

text \<open>
  Claim C10, as the code has it. On the success path of the tool, for the subtasks
  \<^verbatim>\<open>xs\<close> that the client returned: \<^verbatim>\<open>total\<close> is the length of \<^verbatim>\<open>xs\<close>, \<^verbatim>\<open>completed\<close> is the number of
  subtasks whose state is \<^verbatim>\<open>completed\<close> or \<^verbatim>\<open>finished\<close> (so it is at most \<^verbatim>\<open>total\<close>), \<^verbatim>\<open>remaining\<close> is
  their difference, and \<^verbatim>\<open>completionPercentage\<close> is 0 for an empty list and otherwise
  \<^verbatim>\<open>Math.round\<close> of the double \<^verbatim>\<open>(completed / total) * 100\<close>, where the quotient and the product are
  each rounded to a double. It is an integer between 0 and 100. For a list of fewer than
  \<open>2 ^ 32\<close> subtasks (the bound on the length of an array) it is the exact percentage
  \<open>100 * completed / total\<close> rounded to the nearest integer, unless that percentage lies
  exactly halfway between two integers: there it is the upper or the lower of the two.
\<close>

theorem statistics_of_subtasks:
  assumes "createFreeloClient env = Inr client"
    and "fst (listTaskSubtasks client net (taskId input)) = Inr (JArr subtasks)"
    and "map_throw format_subtask subtasks = Inr formatted"
  shows "fst (execute env net input) =
     JObj [(''success'', JBool True), (''taskId'', JNum (taskId input)),
           (''statistics'',
            JObj [(''total'', JNum (int (length subtasks))),
                  (''completed'', JNum (int (length (filter subtask_done subtasks)))),
                  (''remaining'',
                   JNum (int (length subtasks) - int (length (filter subtask_done subtasks)))),
                  (''completionPercentage'',
                   JNum (completionPercentage (length (filter subtask_done subtasks))
                          (length subtasks)))]),
           (''subtasks'', JArr formatted)]
   \<and> length (filter subtask_done subtasks) \<le> length subtasks
   \<and> completionPercentage (length (filter subtask_done subtasks)) (length subtasks)
       = (if 0 < length subtasks
          then Math_round (js_mul (js_div (of_nat (length (filter subtask_done subtasks)))
                                          (of_nat (length subtasks))) 100)
          else 0)
   \<and> 0 \<le> completionPercentage (length (filter subtask_done subtasks)) (length subtasks)
   \<and> completionPercentage (length (filter subtask_done subtasks)) (length subtasks) \<le> 100
   \<and> (0 < length subtasks \<and> length subtasks < 2 ^ 32
        \<and> 100 * of_nat (length (filter subtask_done subtasks)) / of_nat (length subtasks)
            + (1 / 2 :: rat) \<notin> \<int> \<longrightarrow>
        completionPercentage (length (filter subtask_done subtasks)) (length subtasks)
          = Math_round (100 * of_nat (length (filter subtask_done subtasks))
                          / of_nat (length subtasks)))
   \<and> (0 < length subtasks \<and> length subtasks < 2 ^ 32 \<longrightarrow>
        completionPercentage (length (filter subtask_done subtasks)) (length subtasks)
          = Math_round (100 * of_nat (length (filter subtask_done subtasks))
                          / of_nat (length subtasks))
        \<or> completionPercentage (length (filter subtask_done subtasks)) (length subtasks)
          = Math_round (100 * of_nat (length (filter subtask_done subtasks))
                          / of_nat (length subtasks)) - 1)"
proof (intro conjI impI)
  let ?c = "length (filter subtask_done subtasks)"
  let ?t = "length subtasks"
  have le: "?c \<le> ?t" by simp
  from assms have "fst (execute env net input) =
     JObj [(''success'', JBool True), (''taskId'', JNum (taskId input)),
           (''statistics'', statistics formatted), (''subtasks'', JArr formatted)]"
    by (rule execute_success)
  then show "fst (execute env net input) =
     JObj [(''success'', JBool True), (''taskId'', JNum (taskId input)),
           (''statistics'',
            JObj [(''total'', JNum (int ?t)),
                  (''completed'', JNum (int ?c)),
                  (''remaining'', JNum (int ?t - int ?c)),
                  (''completionPercentage'', JNum (completionPercentage ?c ?t))]),
           (''subtasks'', JArr formatted)]"
    using formatted_counts [OF assms(3)] by (simp add: statistics_def Let_def)
  show "?c \<le> ?t" by (rule le)
  show "completionPercentage ?c ?t
       = (if 0 < ?t then Math_round (js_mul (js_div (of_nat ?c) (of_nat ?t)) 100) else 0)"
    by (simp add: completionPercentage_def)
  show "0 \<le> completionPercentage ?c ?t" "completionPercentage ?c ?t \<le> 100"
    using completionPercentage_range [OF le] by simp_all
  show "completionPercentage ?c ?t = Math_round (100 * of_nat ?c / of_nat ?t)"
    if "0 < ?t \<and> ?t < 2 ^ 32 \<and> 100 * of_nat ?c / of_nat ?t + (1 / 2 :: rat) \<notin> \<int>"
    using that completionPercentage_accuracy(1) [OF le] by blast
  show "completionPercentage ?c ?t = Math_round (100 * of_nat ?c / of_nat ?t)
        \<or> completionPercentage ?c ?t = Math_round (100 * of_nat ?c / of_nat ?t) - 1"
    if "0 < ?t \<and> ?t < 2 ^ 32"
    using that completionPercentage_accuracy(2) [OF le] by blast
qed

theorem statistics_of_subtasks_witness:
  "get_prop (fst (execute example_env
       (respond_with (json_response 200 ''OK''
          (envelope [example_subtask ''completed'', example_subtask ''active'',
                     example_subtask ''finished''])))
       \<lparr>taskId = 7\<rparr>)) ''statistics''
   = Inr (JObj [(''total'', JNum 3), (''completed'', JNum 2), (''remaining'', JNum 1),
                (''completionPercentage'', JNum 67)])"
proof -
  let ?xs = "[example_subtask ''completed'', example_subtask ''active'',
              example_subtask ''finished'']"
  let ?net = "respond_with (json_response 200 ''OK'' (envelope ?xs))"
  obtain a b c where "format_subtask (example_subtask ''completed'') = Inr a"
    "format_subtask (example_subtask ''active'') = Inr b"
    "format_subtask (example_subtask ''finished'') = Inr c"
    using format_example_subtask by blast
  then have f: "map_throw format_subtask ?xs = Inr [a, b, c]" by simp
  have l: "fst (listTaskSubtasks example_client ?net (taskId \<lparr>taskId = 7\<rparr>)) = Inr (JArr ?xs)"
    by (rule example_envelope_listed)
  have p: "completionPercentage 2 3 = 67" by code_simp
  have n: "length (filter subtask_done ?xs) = 2" by (simp add: subtask_done_example)
  have t: "length ?xs = 3" by simp
  have e: "Math_round (100 * of_nat 2 / of_nat 3) = 67" by code_simp
  have i: "100 * of_nat 2 / of_nat 3 + (1 / 2 :: rat) \<notin> \<int>"
  proof
    assume "100 * of_nat 2 / of_nat 3 + (1 / 2 :: rat) \<in> \<int>"
    then obtain k :: int where "100 * of_nat 2 / of_nat 3 + (1 / 2 :: rat) = of_int k"
      by (auto elim: Ints_cases)
    then have "(403 :: rat) = of_int (6 * k)" by simp
    then have "(403 :: int) = 6 * k" by (metis of_int_eq_iff of_int_numeral)
    then show False by presburger
  qed
  from statistics_of_subtasks [OF example_client_created l f, unfolded n t p] e i show ?thesis
    by simp
qed

text \<open>
  Claim C10 as stated fails: the percentage is not always the rounded exact quotient. For
  23 completed subtasks out of 40, the double nearest to 23/40 lies below it, its product
  with 100 rounds to the double just below 57.5, and the tool reports 57, whereas
  100 * 23 / 40 = 57.5 rounds to 58.
\<close>

theorem completionPercentage_counterexample:
  "get_prop2 (fst (execute example_env
       (respond_with (json_response 200 ''OK''
          (envelope (replicate 23 (example_subtask ''completed'')
                     @ replicate 17 (example_subtask ''active'')))))
       \<lparr>taskId = 7\<rparr>)) ''statistics'' ''total'' = Inr (JNum 40)
   \<and> get_prop2 (fst (execute example_env
       (respond_with (json_response 200 ''OK''
          (envelope (replicate 23 (example_subtask ''completed'')
                     @ replicate 17 (example_subtask ''active'')))))
       \<lparr>taskId = 7\<rparr>)) ''statistics'' ''completed'' = Inr (JNum 23)
   \<and> get_prop2 (fst (execute example_env
       (respond_with (json_response 200 ''OK''
          (envelope (replicate 23 (example_subtask ''completed'')
                     @ replicate 17 (example_subtask ''active'')))))
       \<lparr>taskId = 7\<rparr>)) ''statistics'' ''completionPercentage'' = Inr (JNum 57)
   \<and> Math_round (100 * 23 / 40) = 58"
proof -
  let ?xs = "replicate 23 (example_subtask ''completed'') @ replicate 17 (example_subtask ''active'')"
  let ?net = "respond_with (json_response 200 ''OK'' (envelope ?xs))"
  obtain a b where ab: "format_subtask (example_subtask ''completed'') = Inr a"
    "format_subtask (example_subtask ''active'') = Inr b"
    using format_example_subtask by blast
  then have f: "map_throw format_subtask ?xs = Inr (replicate 23 a @ replicate 17 b)"
    by (intro map_throw_append map_throw_replicate)
  have l: "fst (listTaskSubtasks example_client ?net (taskId \<lparr>taskId = 7\<rparr>)) = Inr (JArr ?xs)"
    by (rule example_envelope_listed)
  have n: "length (filter subtask_done ?xs) = 23" by (simp add: subtask_done_example)
  have s: "statistics (replicate 23 a @ replicate 17 b) =
     JObj [(''total'', JNum 40), (''completed'', JNum 23), (''remaining'', JNum 17),
           (''completionPercentage'', JNum 57)]"
    using formatted_counts [OF f] n by (simp add: statistics_def Let_def completionPercentage_23_of_40)
  from execute_success [OF example_client_created l f] s exact_percentage_23_of_40
  show ?thesis by (simp add: get_prop2_def and_then_def)
qed

end
